theory Spec2Isabelle
  imports Main "HOL-Library.Sublist"
begin

section \<open>The JavaScript built-ins the library calls\<close>

text \<open>
  The library is TypeScript that runs on a JavaScript engine. Its functions are a few
  lines each and do their work through built-in methods of strings, numbers and
  arrays, so the built-ins are modelled first, each after its ECMAScript definition.

  A JavaScript string is a sequence of code units and is modelled as \<open>string\<close>:
  one \<open>char\<close> per code unit, so \<open>length\<close> is the \<open>length\<close> property.
  The Japanese words of the one error message, which nothing here measures, are kept
  as the bytes of the source file.
  A \<open>number\<close> that is used as a count or an index is an \<open>int\<close>: the model covers
  integer-valued numbers and leaves fractions, \<open>NaN\<close> and the infinities out. Strings
  and arrays are unbounded, so an engine's limit on the size of a string is not part
  of the model.
\<close>

datatype js_error = RangeError | Error string

subsection \<open>\<open>Number.prototype.toString\<close>\<close>

definition digit_char :: "nat \<Rightarrow> char" where
  "digit_char d = ''0123456789abcdefghijklmnopqrstuvwxyz'' ! d"

fun digits_radix :: "nat \<Rightarrow> nat \<Rightarrow> string" where
  "digits_radix radix n =
     (if n < radix \<or> radix < 2 then [digit_char n]
      else digits_radix radix (n div radix) @ [digit_char (n mod radix)])"

text \<open>
  \<open>num.toString(radix)\<close> of an integer-valued number: a minus sign for a negative
  number, then the digits of its magnitude, lowercase and with no leading zero. The
  library calls it with radix 16 and, through \<open>toString()\<close>, with radix 10, where it
  is the decimal numeral as long as the magnitude stays below \<open>10^21\<close>. A radix
  outside 2 to 36, on which JavaScript throws, is never passed.
\<close>

definition toString_radix :: "int \<Rightarrow> nat \<Rightarrow> string" where
  "toString_radix num radix =
     (if num < 0 then ''-'' @ digits_radix radix (nat (- num))
      else digits_radix radix (nat num))"

definition number_toString :: "int \<Rightarrow> string" where
  "number_toString num = toString_radix num 10"

subsection \<open>\<open>String.prototype.repeat\<close> and \<open>String.prototype.slice\<close>\<close>

text \<open>\<open>s.repeat(count)\<close> throws a \<open>RangeError\<close> on a negative count.\<close>

definition string_repeat :: "string \<Rightarrow> int \<Rightarrow> js_error + string" where
  "string_repeat s count =
     (if count < 0 then Inl RangeError else Inr (concat (replicate (nat count) s)))"

text \<open>
  \<open>s.slice(start)\<close> with one argument: a negative start counts from the end and is
  clamped at 0, any other start is clamped at the length; the result runs to the end
  of the string. The start \<open>-0\<close> is the start \<open>0\<close>.
\<close>

definition string_slice :: "string \<Rightarrow> int \<Rightarrow> string" where
  "string_slice s start =
     (let len = int (length s);
          k = (if start < 0 then max (len + start) 0 else min start len)
      in drop (nat k) s)"

subsection \<open>Arrays\<close>

text \<open>
  An array of the library is a dense \<open>T[]\<close>. Its elements are \<open>'a option\<close>, with
  \<open>None\<close> for \<open>undefined\<close>, which is what reading an index outside the array gives
  and what \<open>splice\<close> can then store. The library mutates the array it is given and
  returns the same reference; the model returns the array's new contents.
\<close>

definition array_get :: "'a option list \<Rightarrow> int \<Rightarrow> 'a option" where
  "array_get array i =
     (if 0 \<le> i \<and> i < int (length array) then array ! nat i else None)"

text \<open>
  \<open>array.splice(start, deleteCount, ...items)\<close>: the start is clamped into the
  array as for \<open>slice\<close>, the delete count is clamped to what is left from there, and
  the items take the place of the deleted elements.
\<close>

definition array_splice :: "'a list \<Rightarrow> int \<Rightarrow> int \<Rightarrow> 'a list \<Rightarrow> 'a list" where
  "array_splice array start deleteCount items =
     (let len = int (length array);
          actualStart = (if start < 0 then max (len + start) 0 else min start len);
          actualDeleteCount = min (max deleteCount 0) (len - actualStart)
      in take (nat actualStart) array @ items
           @ drop (nat (actualStart + actualDeleteCount)) array)"

section \<open>The library\<close>

subsection \<open>\<open>TypeGuard.isNull\<close> and \<open>SpreadsheetLib.openSheet\<close>\<close>

text \<open>
  The bound spreadsheet handle is an object of the host platform. The library calls
  two of its methods: the lookup of a sheet by name, which returns the sheet or
  \<open>null\<close> (here \<open>None\<close>), and the identifier of the spreadsheet.
\<close>

record 'sheet Spreadsheet =
  getSheetByName :: "string \<Rightarrow> 'sheet option"
  getId :: string

definition TypeGuard_isNull :: "'a option \<Rightarrow> bool" where
  "TypeGuard_isNull x = (x = None)"

text \<open>
  The fixed Japanese text of the error message, as the UTF-8 bytes of the source
  file: the particle after the sheet name, and the closing "does not exist in".
\<close>

definition message_wa :: string where
  "message_wa = [CHR 0xE3, CHR 0x81, CHR 0xAF]"

definition message_not_in :: string where
  "message_not_in =
     [CHR 0xE3, CHR 0x81, CHR 0xAB, CHR 0xE5, CHR 0xAD, CHR 0x98,
      CHR 0xE5, CHR 0x9C, CHR 0xA8, CHR 0xE3, CHR 0x81, CHR 0x97,
      CHR 0xE3, CHR 0x81, CHR 0xBE, CHR 0xE3, CHR 0x81, CHR 0x9B,
      CHR 0xE3, CHR 0x82, CHR 0x93]"

text \<open>The object \<open>{ sheet }\<close> that \<open>openSheet\<close> returns holds the result of the lookup.\<close>

record 'sheet opened =
  sheet :: "'sheet option"

definition openSheet :: "'sheet Spreadsheet \<Rightarrow> string \<Rightarrow> js_error + 'sheet opened" where
  "openSheet ss sheetName =
     (let found = getSheetByName ss sheetName in
      if TypeGuard_isNull found
      then Inl (Error (''sheet '' @ [CHR 0x22] @ sheetName @ [CHR 0x22] @ '' '' @ message_wa
                        @ '' Spreadsheet '' @ getId ss @ '' '' @ message_not_in))
      else Inr \<lparr>sheet = found\<rparr>)"

text \<open>A spreadsheet with the identifier \<open>abc123\<close> and the one sheet \<open>Data\<close>.\<close>

definition book :: "nat Spreadsheet" where
  "book = \<lparr>getSheetByName = (\<lambda>name. if name = ''Data'' then Some 1 else None),
            getId = ''abc123''\<rparr>"

subsection \<open>\<open>toZeroPadding\<close> and \<open>toWordPadding\<close>\<close>

text \<open>The argument \<open>v: string | number\<close>.\<close>

datatype strnum = Str string | Num int

text \<open>
  The source names the absolute value \<open>_\<close>; it is \<open>width\<close> here. Both branches build
  the padded text with a template literal and cut it with \<open>slice(-_)\<close>.
\<close>

definition toZeroPadding :: "strnum \<Rightarrow> int \<Rightarrow> js_error + string" where
  "toZeroPadding val digit =
     (let width = (if digit < 0 then - digit else digit) in
      case val of
        Num num \<Rightarrow>
          (case string_repeat ''0'' width of
             Inl e \<Rightarrow> Inl e
           | Inr zeros \<Rightarrow> Inr (string_slice (zeros @ number_toString num) (- width)))
      | Str s \<Rightarrow>
          (case string_repeat ''0'' width of
             Inl e \<Rightarrow> Inl e
           | Inr zeros \<Rightarrow> Inr (string_slice (zeros @ s) (- width))))"

definition toWordPadding :: "strnum \<Rightarrow> int \<Rightarrow> string \<Rightarrow> js_error + string" where
  "toWordPadding val digit word =
     (let width = (if digit < 0 then - digit else digit) in
      case val of
        Num num \<Rightarrow>
          (case string_repeat word width of
             Inl e \<Rightarrow> Inl e
           | Inr padding \<Rightarrow> Inr (string_slice (padding @ number_toString num) (- width)))
      | Str s \<Rightarrow>
          (case string_repeat word width of
             Inl e \<Rightarrow> Inl e
           | Inr padding \<Rightarrow> Inr (string_slice (padding @ s) (- width))))"

text \<open>The text of a value, which the specification calls its rendering.\<close>

definition rendering :: "strnum \<Rightarrow> string" where
  "rendering val = (case val of Num num \<Rightarrow> number_toString num | Str s \<Rightarrow> s)"

subsection \<open>\<open>Pipe\<close>\<close>

text \<open>
  A pipe object has the one private field \<open>v\<close>. Every method runs on the object
  \<open>this\<close> and, but for \<open>exit\<close>, returns \<open>this\<close>: the model passes the state of the
  object through. \<open>log\<close> writes to the console, which is the list of the values
  written so far. The functions given to \<open>to\<close> are taken to be pure.
\<close>

record 'a Pipe =
  v :: 'a

definition Pipe_new :: "'a \<Rightarrow> 'a Pipe" where
  "Pipe_new x = \<lparr>v = x\<rparr>"

definition Pipe_log :: "'a Pipe \<Rightarrow> 'a list \<Rightarrow> 'a Pipe \<times> 'a list" where
  "Pipe_log this console = (this, console @ [v this])"

definition Pipe_to :: "'a Pipe \<Rightarrow> ('a \<Rightarrow> 'a) \<Rightarrow> 'a Pipe" where
  "Pipe_to this fc = this\<lparr>v := fc (v this)\<rparr>"

definition Pipe_exit :: "'a Pipe \<Rightarrow> 'a" where
  "Pipe_exit this = v this"

text \<open>
  A chain \<open>p.to(f).log().to(g)\<close> is the list of its calls, run from left to right on
  the pipe and the console.
\<close>

datatype 'a call = To "'a \<Rightarrow> 'a" | Log

fun chain :: "'a call list \<Rightarrow> 'a Pipe \<times> 'a list \<Rightarrow> 'a Pipe \<times> 'a list" where
  "chain [] st = st"
| "chain (To fc # calls) (this, console) = chain calls (Pipe_to this fc, console)"
| "chain (Log # calls) (this, console) = chain calls (Pipe_log this console)"

subsection \<open>\<open>createMD5HashKey\<close>\<close>

text \<open>
  \<open>Utilities.computeDigest\<close> belongs to the host platform and is a parameter: with
  the algorithm and the character set fixed to MD5 and UTF-8 it maps the text to the
  digest, an array of numbers. \<open>forEach\<close> visits the bytes in order and appends each
  rendering to \<open>hash_key\<close>.
\<close>

definition createMD5HashKey :: "(string \<Rightarrow> int list) \<Rightarrow> string \<Rightarrow> string" where
  "createMD5HashKey computeDigest text =
     (let md5_byte = computeDigest text in
      foldl (\<lambda>hash_key byte.
               hash_key @ (if byte < 0 then toString_radix (byte + 256) 16
                           else toString_radix byte 16))
            [] md5_byte)"

text \<open>
  The digest of the empty text, \<open>d41d8cd98f00b204e9800998ecf8427e\<close>, as the platform
  returns it: sixteen signed bytes.
\<close>

definition md5_empty_text :: "int list" where
  "md5_empty_text =
     [-44, 29, -116, -39, -113, 0, -78, 4, -23, -128, 9, -104, -20, -8, 66, 126]"

text \<open>
  The encoding in the words of the specification: a negative byte is corrected by
  adding 256, and the value is written in lowercase hexadecimal with no padding to
  two digits, so one digit below 16 and two from there on.
\<close>

definition unsigned_value :: "int \<Rightarrow> int" where
  "unsigned_value b = (if b < 0 then b + 256 else b)"

definition hex_digit :: "int \<Rightarrow> char" where
  "hex_digit d = ''0123456789abcdef'' ! nat d"

definition hex_unpadded :: "int \<Rightarrow> string" where
  "hex_unpadded u = (if u < 16 then [hex_digit u] else [hex_digit (u div 16), hex_digit (u mod 16)])"

definition hash_key_spec :: "int list \<Rightarrow> string" where
  "hash_key_spec bytes = concat (map (\<lambda>b. hex_unpadded (unsigned_value b)) bytes)"

subsection \<open>\<open>ArrayActions\<close>\<close>

text \<open>
  \<open>swapDown\<close> also writes the length of the array to the console before it swaps;
  the array is all that the model keeps of it.
\<close>

definition swapUp :: "'a option list \<Rightarrow> int \<Rightarrow> 'a option list" where
  "swapUp array index =
     (if index \<le> 0 then array
      else array_splice array (index - 1) 2 [array_get array index, array_get array (index - 1)])"

definition swapDown :: "'a option list \<Rightarrow> int \<Rightarrow> 'a option list" where
  "swapDown array index =
     (if index < 0 then array
      else if int (length array) - 1 \<le> index then array
      else array_splice array index 2 [array_get array (index + 1), array_get array index])"

section \<open>Facts about the built-ins\<close>

lemma string_repeat_nonneg:
  "0 \<le> n \<Longrightarrow> string_repeat s n = Inr (concat (replicate (nat n) s))"
  by (simp add: string_repeat_def)

lemma string_slice_zero: "string_slice s 0 = s"
  by (simp add: string_slice_def)

lemma string_slice_neg: "0 < n \<Longrightarrow> string_slice s (- n) = drop (length s - nat n) s"
  by (simp add: string_slice_def Let_def max_def nat_diff_distrib')

lemma concat_replicate_single: "concat (replicate n [c]) = replicate n c"
  by (induction n) simp_all

section \<open>Padding\<close>

text \<open>
  C10. With \<open>digit = 0\<close> both padding functions return the whole text of the value:
  no padding is added, and \<open>slice(-0)\<close> is \<open>slice(0)\<close>, which keeps the whole string
  where the last 0 characters would be none. The result is as long as the text of the
  value, not 0 characters long.
\<close>

theorem padding_zero_digit:
  "toZeroPadding val 0 = Inr (rendering val) \<and>
   toWordPadding val 0 word = Inr (rendering val) \<and>
   toZeroPadding (Num 7) 0 = Inr ''7''"
  by (cases val) (simp_all add: toZeroPadding_def toWordPadding_def rendering_def
      string_repeat_def string_slice_zero number_toString_def toString_radix_def digit_char_def)

text \<open>
  C7. A negative digit count behaves as its absolute value: \<open>toZeroPadding\<close> and
  \<open>toWordPadding\<close> give the same result for \<open>- digit\<close> as for \<open>digit\<close>, whatever the
  value and the padding word.
\<close>

theorem padding_negative_digit:
  "toZeroPadding val (- digit) = toZeroPadding val digit \<and>
   toWordPadding val (- digit) word = toWordPadding val digit word"
proof -
  have width: "(if - digit < 0 then - (- digit) else - digit) = (if digit < 0 then - digit else digit)"
    by simp
  show ?thesis
    unfolding toZeroPadding_def toWordPadding_def width by simp
qed

text \<open>
  For a digit count other than 0 the result of \<open>toZeroPadding\<close> is the text of the
  value, cut to its last \<open>\<bar>digit\<bar>\<close> characters when it is longer and filled up
  with zeros on the left when it is shorter.
\<close>

lemma toZeroPadding_text:
  assumes "digit \<noteq> 0"
  shows "toZeroPadding val digit =
     Inr (replicate (nat \<bar>digit\<bar> - length (rendering val)) CHR ''0''
          @ drop (length (rendering val) - nat \<bar>digit\<bar>) (rendering val))"
proof -
  define w where "w = (if digit < 0 then - digit else digit)"
  have w: "0 < w" "w = \<bar>digit\<bar>" using assms by (auto simp: w_def)
  have cut: "string_slice (replicate (nat w) CHR ''0'' @ s) (- w) =
        replicate (nat w - length s) CHR ''0'' @ drop (length s - nat w) s" for s
    using w(1) by (simp add: string_slice_neg)
  note cut' = cut [unfolded w(2)]
  have "toZeroPadding val digit =
      Inr (string_slice (replicate (nat w) CHR ''0'' @ rendering val) (- w))"
    using w(1) unfolding toZeroPadding_def w_def [symmetric] Let_def
    by (cases val) (simp_all add: string_repeat_nonneg concat_replicate_single rendering_def)
  then show ?thesis unfolding w(2) by (simp only: cut')
qed

lemma toZeroPadding_examples:
  "toZeroPadding (Num 7) 3 = Inr ''007'' \<and> toZeroPadding (Num 12345) 3 = Inr ''345''"
proof -
  have zeros: "string_repeat ''0'' 3 = Inr ''000''"
    by (simp add: string_repeat_def numeral_3_eq_3)
  have seven: "number_toString 7 = ''7''" and big: "number_toString 12345 = ''12345''"
    by (simp_all add: number_toString_def toString_radix_def digit_char_def)
  have cut: "string_slice ''0007'' (- 3) = ''007''" "string_slice ''00012345'' (- 3) = ''345''"
    by (simp_all add: string_slice_def)
  show ?thesis
    using cut by (simp add: toZeroPadding_def zeros seven big)
qed

text \<open>
  C6, as the claim states it: the result has exactly \<open>\<bar>digit\<bar>\<close> characters for every
  value and every digit count. It fails at \<open>digit = 0\<close>, where \<open>toZeroPadding(7, 0)\<close> is
  \<open>"7"\<close>.
\<close>

theorem toZeroPadding_zero_digit_counterexample:
  "\<not> (\<forall>val digit. \<exists>s. toZeroPadding val digit = Inr s \<and> length s = nat \<bar>digit\<bar>)"
proof
  assume "\<forall>val digit. \<exists>s. toZeroPadding val digit = Inr s \<and> length s = nat \<bar>digit\<bar>"
  then obtain s where "toZeroPadding (Num 7) 0 = Inr s" and "length s = nat \<bar>0::int\<bar>"
    by blast
  moreover have "toZeroPadding (Num 7) 0 = Inr ''7''"
    by (simp add: toZeroPadding_def string_repeat_def string_slice_def number_toString_def
        toString_radix_def digit_char_def)
  ultimately show False by simp
qed

text \<open>
  C6, amended. For every value and every digit count other than 0, \<open>toZeroPadding\<close>
  pads the text of the value with zeros on the left up to \<open>\<bar>digit\<bar>\<close> characters and
  keeps the last \<open>\<bar>digit\<bar>\<close> characters of a longer text, so the result has exactly
  \<open>\<bar>digit\<bar>\<close> characters. \<open>toZeroPadding(7, 3)\<close> is \<open>"007"\<close> and
  \<open>toZeroPadding(12345, 3)\<close> is \<open>"345"\<close>.
\<close>

theorem toZeroPadding_width:
  assumes "digit \<noteq> 0"
  shows "toZeroPadding val digit =
           Inr (replicate (nat \<bar>digit\<bar> - length (rendering val)) CHR ''0''
                @ drop (length (rendering val) - nat \<bar>digit\<bar>) (rendering val)) \<and>
         (\<exists>s. toZeroPadding val digit = Inr s \<and> length s = nat \<bar>digit\<bar>) \<and>
         toZeroPadding (Num 7) 3 = Inr ''007'' \<and>
         toZeroPadding (Num 12345) 3 = Inr ''345''"
proof -
  note toZeroPadding_examples
  moreover have "length (replicate (nat \<bar>digit\<bar> - length (rendering val)) CHR ''0''
                @ drop (length (rendering val) - nat \<bar>digit\<bar>) (rendering val)) = nat \<bar>digit\<bar>"
    by simp
  ultimately show ?thesis using toZeroPadding_text [OF assms, of val] by simp
qed

theorem toZeroPadding_width_witness:
  "(- 5 :: int) \<noteq> 0 \<and> toZeroPadding (Str ''ab'') (- 5) = Inr ''000ab'' \<and>
   (2 :: int) \<noteq> 0 \<and> toZeroPadding (Num 2024) 2 = Inr ''24''"
proof -
  have a: "(- 5 :: int) \<noteq> 0" and b: "(2 :: int) \<noteq> 0" by simp_all
  have r: "rendering (Num 2024) = ''2024''"
    by (simp add: rendering_def number_toString_def toString_radix_def digit_char_def)
  from toZeroPadding_width [OF a, of "Str ''ab''"]
  have "toZeroPadding (Str ''ab'') (- 5) = Inr ''000ab''"
    by (simp add: rendering_def numeral_eq_Suc)
  moreover from toZeroPadding_width [OF b, of "Num 2024"]
  have "toZeroPadding (Num 2024) 2 = Inr ''24''"
    by (simp add: r numeral_eq_Suc)
  ultimately show ?thesis by simp
qed

section \<open>Pipe\<close>

lemma chain_value:
  "v (fst (chain calls (this, console))) =
     fold (\<lambda>c x. case c of To fc \<Rightarrow> fc x | Log \<Rightarrow> x) calls (v this)"
proof (induction calls arbitrary: this console)
  case Nil
  show ?case by simp
next
  case (Cons c calls)
  show ?case
  proof (cases c)
    case (To fc)
    then show ?thesis using Cons.IH [of "Pipe_to this fc" console]
      by (simp add: Pipe_to_def)
  next
    case Log
    then show ?thesis using Cons.IH [of this "console @ [v this]"]
      by (simp add: Pipe_log_def)
  qed
qed

lemma fold_To:
  "fold (\<lambda>c x. case c of To fc \<Rightarrow> fc x | Log \<Rightarrow> x) (map To fs) y = fold (\<lambda>f z. f z) fs y"
  by (induction fs arbitrary: y) simp_all

text \<open>
  C8. A pipe built from \<open>x\<close> on which \<open>to(f1)\<close>, ..., \<open>to(fn)\<close> are chained and \<open>exit()\<close>
  is called returns \<open>fn(...(f1(x)))\<close>, which is \<open>fold (\<lambda>f z. f z) [f1, ..., fn] x\<close>.
  \<open>to(fc)\<close> returns the pipe with \<open>fc\<close> applied to the held value, \<open>log()\<close> returns
  the pipe as it was and writes the held value to the console, and \<open>exit()\<close> returns
  the held value. \<open>Pipe(5).to(x => x + 1).to(x => x * 2).exit()\<close> is 12.
\<close>

theorem Pipe_chain_exit:
  "Pipe_exit (fst (chain (map To fs) (Pipe_new x, console))) = fold (\<lambda>f z. f z) fs x \<and>
   Pipe_to this fc = this\<lparr>v := fc (v this)\<rparr> \<and>
   Pipe_log this console = (this, console @ [v this]) \<and>
   Pipe_exit this = v this \<and>
   Pipe_exit (fst (chain [To (\<lambda>n. n + 1), To (\<lambda>n. n * 2)] (Pipe_new (5::int), []))) = 12"
proof -
  have "Pipe_exit (fst (chain (map To fs) (Pipe_new x, console))) = fold (\<lambda>f z. f z) fs x"
    by (simp add: Pipe_exit_def chain_value Pipe_new_def fold_To)
  moreover have "Pipe_exit (fst (chain [To (\<lambda>n. n + 1), To (\<lambda>n. n * 2)] (Pipe_new (5::int), []))) = 12"
    by (simp add: Pipe_exit_def Pipe_to_def Pipe_new_def)
  ultimately show ?thesis
    by (simp add: Pipe_to_def Pipe_log_def Pipe_exit_def)
qed

section \<open>openSheet\<close>

text \<open>
  C9. \<open>openSheet\<close> raises an error exactly when the lookup of the sheet by name
  returns \<open>null\<close>; the message of the error contains the requested name and the
  identifier of the spreadsheet. When the lookup finds a sheet, \<open>openSheet\<close> returns
  the object that holds it.
\<close>

theorem openSheet_contract:
  "(getSheetByName ss sheetName = None \<longrightarrow>
      (\<exists>message. openSheet ss sheetName = Inl (Error message) \<and>
         sublist sheetName message \<and> sublist (getId ss) message)) \<and>
   (\<forall>found. getSheetByName ss sheetName = Some found \<longrightarrow>
      openSheet ss sheetName = Inr \<lparr>sheet = Some found\<rparr>) \<and>
   (isl (openSheet ss sheetName) \<longleftrightarrow> getSheetByName ss sheetName = None)"
proof -
  let ?m = "''sheet '' @ [CHR 0x22] @ sheetName @ [CHR 0x22] @ '' '' @ message_wa
              @ '' Spreadsheet '' @ getId ss @ '' '' @ message_not_in"
  have name: "sublist sheetName ?m"
    unfolding sublist_def
    by (intro exI [of _ "''sheet '' @ [CHR 0x22]"]
        exI [of _ "[CHR 0x22] @ '' '' @ message_wa @ '' Spreadsheet '' @ getId ss @ '' '' @ message_not_in"]) simp
  have ident: "sublist (getId ss) ?m"
    unfolding sublist_def
    by (intro exI [of _ "''sheet '' @ [CHR 0x22] @ sheetName @ [CHR 0x22] @ '' '' @ message_wa @ '' Spreadsheet ''"]
        exI [of _ "'' '' @ message_not_in"]) simp
  show ?thesis
    using name ident by (auto simp: openSheet_def TypeGuard_isNull_def Let_def)
qed

theorem openSheet_contract_witness:
  "getSheetByName book ''Other'' = None \<and>
   (\<exists>message. openSheet book ''Other'' = Inl (Error message) \<and>
         sublist ''Other'' message \<and> sublist (getId book) message) \<and>
   getSheetByName book ''Data'' = Some 1 \<and>
   openSheet book ''Data'' = Inr \<lparr>sheet = Some 1\<rparr>"
proof -
  have none: "getSheetByName book ''Other'' = None"
    by (simp add: book_def)
  have some: "getSheetByName book ''Data'' = Some 1"
    by (simp add: book_def)
  from openSheet_contract [of book "''Other''"] none
  have a: "\<exists>message. openSheet book ''Other'' = Inl (Error message) \<and>
         sublist ''Other'' message \<and> sublist (getId book) message" by blast
  from openSheet_contract [of book "''Data''"] some
  have b: "openSheet book ''Data'' = Inr \<lparr>sheet = Some 1\<rparr>" by blast
  from none a some b show ?thesis by blast
qed

section \<open>ArrayActions\<close>

text \<open>
  On an array with two neighbours \<open>a\<close> and \<open>b\<close> after the elements \<open>front\<close>, both
  functions put \<open>b\<close> before \<open>a\<close>: \<open>swapDown\<close> at the index of \<open>a\<close>, \<open>swapUp\<close> at
  the index of \<open>b\<close>.
\<close>

lemma swapDown_split:
  "swapDown (front @ a # b # rest) (int (length front)) = front @ b # a # rest"
  by (simp add: swapDown_def array_splice_def array_get_def nth_append Let_def nat_add_distrib)

lemma swapUp_split:
  "swapUp (front @ a # b # rest) (int (length front) + 1) = front @ b # a # rest"
proof -
  have i: "int (length front) + 1 - 1 = int (length front)" "\<not> int (length front) + 1 \<le> 0"
    by simp_all
  have n: "nat (int (length front) + 1) = Suc (length front)" by simp
  have g1: "array_get (front @ a # b # rest) (int (length front) + 1) = b"
    unfolding array_get_def n by (simp add: nth_append)
  have g0: "array_get (front @ a # b # rest) (int (length front)) = a"
    unfolding array_get_def by simp
  show ?thesis
    unfolding swapUp_def i g1 g0 if_False
    by (simp add: array_splice_def Let_def nat_add_distrib)
qed

lemma split_at_pair:
  assumes "Suc k < length xs"
  obtains front rest where "xs = front @ xs ! k # xs ! Suc k # rest" and "length front = k"
proof (rule that)
  show "xs = take k xs @ xs ! k # xs ! Suc k # drop (Suc (Suc k)) xs"
    using assms by (simp add: Cons_nth_drop_Suc)
  show "length (take k xs) = k" using assms by simp
qed

lemma swapDown_in_range:
  assumes "0 \<le> i" and "i < int (length seq) - 1"
  shows "length (swapDown seq i) = length seq"
    and "swapDown seq i ! nat i = seq ! nat (i + 1)"
    and "swapDown seq i ! nat (i + 1) = seq ! nat i"
    and "j < length seq \<Longrightarrow> j \<noteq> nat i \<Longrightarrow> j \<noteq> nat (i + 1) \<Longrightarrow> swapDown seq i ! j = seq ! j"
proof -
  define k where "k = nat i"
  have i: "i = int k" and k: "Suc k < length seq" and i1: "nat (i + 1) = Suc k"
    using assms by (simp_all add: k_def)
  from split_at_pair [OF k] obtain front rest
    where seq: "seq = front @ seq ! k # seq ! Suc k # rest" and front: "length front = k"
    by blast
  have res: "swapDown seq i = front @ seq ! Suc k # seq ! k # rest"
    using swapDown_split [of front "seq ! k" "seq ! Suc k" rest] seq front i by simp
  show "length (swapDown seq i) = length seq"
    unfolding res by (subst (3) seq) simp
  show "swapDown seq i ! nat i = seq ! nat (i + 1)"
    unfolding res i1 k_def [symmetric] using front by (simp add: nth_append)
  show "swapDown seq i ! nat (i + 1) = seq ! nat i"
    unfolding res i1 k_def [symmetric] using front by (simp add: nth_append)
  show "swapDown seq i ! j = seq ! j"
    if "j < length seq" "j \<noteq> nat i" "j \<noteq> nat (i + 1)"
  proof -
    have "(front @ seq ! Suc k # seq ! k # rest) ! j = (front @ seq ! k # seq ! Suc k # rest) ! j"
      using that front unfolding i1 k_def [symmetric]
      by (auto simp: nth_append nth_Cons')
    then show ?thesis unfolding res using seq by simp
  qed
qed

text \<open>
  C4. \<open>swapDown(seq, i)\<close> returns the array unchanged when \<open>i < 0\<close> or
  \<open>i \<ge> length - 1\<close>. Otherwise it exchanges the elements at \<open>i\<close> and \<open>i + 1\<close> and
  leaves the length and every other element as they were. \<open>swapDown([a,b,c], 1)\<close> is
  \<open>[a,c,b]\<close> and \<open>swapDown([a,b,c], 2)\<close> is \<open>[a,b,c]\<close>.
\<close>

theorem swapDown_contract:
  fixes seq :: "'a option list" and a b c :: "'a option"
  shows
  "(i < 0 \<or> int (length seq) - 1 \<le> i \<longrightarrow> swapDown seq i = seq) \<and>
   (0 \<le> i \<and> i < int (length seq) - 1 \<longrightarrow>
      length (swapDown seq i) = length seq \<and>
      swapDown seq i ! nat i = seq ! nat (i + 1) \<and>
      swapDown seq i ! nat (i + 1) = seq ! nat i \<and>
      (\<forall>j. j < length seq \<and> j \<noteq> nat i \<and> j \<noteq> nat (i + 1) \<longrightarrow> swapDown seq i ! j = seq ! j)) \<and>
   swapDown [a, b, c] 1 = [a, c, b] \<and>
   swapDown [a, b, c] 2 = [a, b, c]"
proof -
  have "swapDown [a, b, c] 1 = [a, c, b]"
    using swapDown_split [of "[a]" b c "[]"] by simp
  moreover have "swapDown [a, b, c] 2 = [a, b, c]"
    by (simp add: swapDown_def)
  moreover have "i < 0 \<or> int (length seq) - 1 \<le> i \<Longrightarrow> swapDown seq i = seq"
    by (auto simp: swapDown_def)
  ultimately show ?thesis
    using swapDown_in_range [of i seq] by blast
qed

theorem swapDown_contract_witness:
  "swapDown [Some ''a'', Some ''b'', Some ''c'', Some ''d''] 3 = [Some ''a'', Some ''b'', Some ''c'', Some ''d''] \<and>
   swapDown [Some ''a'', Some ''b'', Some ''c'', Some ''d''] (- 1) = [Some ''a'', Some ''b'', Some ''c'', Some ''d''] \<and>
   swapDown [Some ''a'', Some ''b'', Some ''c'', Some ''d''] 1 ! 1 = Some ''c'' \<and>
   swapDown [Some ''a'', Some ''b'', Some ''c'', Some ''d''] 1 ! 2 = Some ''b'' \<and>
   swapDown [Some ''a'', Some ''b'', Some ''c'', Some ''d''] 1 ! 0 = Some ''a'' \<and>
   swapDown [Some ''a'', Some ''b'', Some ''c'', Some ''d''] 1 ! 3 = Some ''d'' \<and>
   length (swapDown [Some ''a'', Some ''b'', Some ''c'', Some ''d''] 1) = 4"
proof -
  let ?seq = "[Some ''a'', Some ''b'', Some ''c'', Some ''d'']"
  note at_end = swapDown_contract [where i = 3 and seq = ?seq and a = None and b = None and c = None]
  note before = swapDown_contract [where i = "- 1" and seq = ?seq and a = None and b = None and c = None]
  note inside = swapDown_contract [where i = 1 and seq = ?seq and a = None and b = None and c = None]
  have "swapDown ?seq 3 = ?seq" using at_end by simp
  moreover have "swapDown ?seq (- 1) = ?seq" using before by simp
  moreover have "swapDown ?seq 1 ! 1 = Some ''c''" "swapDown ?seq 1 ! 2 = Some ''b''"
    "length (swapDown ?seq 1) = 4"
    using inside by (simp_all add: nat_add_distrib)
  moreover have "swapDown ?seq 1 ! 0 = Some ''a''" "swapDown ?seq 1 ! 3 = Some ''d''"
    using inside by (simp_all add: nat_add_distrib)
  ultimately show ?thesis by simp
qed

text \<open>
  What \<open>swapUp\<close> does inside the array: with \<open>0 < i < length\<close> it exchanges the
  elements at \<open>i - 1\<close> and \<open>i\<close>, and with \<open>i \<le> 0\<close> it returns the array unchanged.
\<close>

lemma swapUp_in_range:
  assumes "0 < i" and "i < int (length seq)"
  shows "swapUp seq i = seq[nat (i - 1) := seq ! nat i, nat i := seq ! nat (i - 1)]"
proof -
  define k where "k = nat (i - 1)"
  have i: "i = int k + 1" and k: "Suc k < length seq" and i1: "nat i = Suc k"
    using assms by (simp_all add: k_def)
  from split_at_pair [OF k] obtain front rest
    where seq: "seq = front @ seq ! k # seq ! Suc k # rest" and front: "length front = k"
    by blast
  have "swapUp seq i = front @ seq ! Suc k # seq ! k # rest"
    using swapUp_split [of front "seq ! k" "seq ! Suc k" rest] seq front i by simp
  also have "\<dots> = (front @ seq ! k # seq ! Suc k # rest)[k := seq ! Suc k, Suc k := seq ! k]"
    using front by (simp add: list_update_append)
  finally show ?thesis
    unfolding i1 k_def [symmetric] using seq by simp
qed

lemma swapUp_low_index: "i \<le> 0 \<Longrightarrow> swapUp seq i = seq"
  by (simp add: swapUp_def)

lemma swapUp_examples: "swapUp [a, b, c] 1 = [b, a, c] \<and> swapUp [a, b, c] 0 = [a, b, c]"
  using swapUp_split [of "[]" a b "[c]"] by (simp add: swapUp_low_index)

lemma swapDown_short_array: "length seq \<le> 1 \<Longrightarrow> swapDown seq i = seq"
  by (simp add: swapDown_def)

text \<open>
  C3. The claim holds for \<open>i \<le> 0\<close> and for \<open>0 < i < length\<close>, and the code
  departs from it at every index from the length on. \<open>swapUp\<close> has no check of the
  upper end, which \<open>swapDown\<close> has: at \<open>i = length\<close> it reads \<open>undefined\<close> past the
  end and \<open>splice\<close> stores it before the last element, at a greater index
  it appends two \<open>undefined\<close>. The array grows in both cases.
\<close>

theorem swapUp_past_end:
  "swapUp [Some ''a'', Some ''b'', Some ''c''] 3 = [Some ''a'', Some ''b'', None, Some ''c''] \<and>
   swapUp [Some ''a'', Some ''b'', Some ''c''] 5 = [Some ''a'', Some ''b'', Some ''c'', None, None]"
  by (simp add: swapUp_def array_splice_def array_get_def)

text \<open>
  C5. \<open>swapDown\<close> leaves an empty or one-element array as it is at every index, and
  \<open>swapUp\<close> does at every index \<open>i \<le> 0\<close>. At an index \<open>i \<ge> 1\<close> \<open>swapUp\<close> does
  not: for want of the same check of the upper end, \<open>swapUp([], 1)\<close> is
  \<open>[undefined, undefined]\<close> and \<open>swapUp([a], 1)\<close> is \<open>[undefined, a]\<close>.
\<close>

theorem swapUp_short_array_grows:
  "swapUp ([] :: string option list) 1 = [None, None] \<and>
   swapUp [Some ''a''] 1 = [None, Some ''a'']"
  by (simp add: swapUp_def array_splice_def array_get_def)

section \<open>createMD5HashKey\<close>

text \<open>The loop that appends to \<open>hash_key\<close> concatenates the renderings in order.\<close>

lemma foldl_append_concat:
  "foldl (\<lambda>acc x. acc @ f x) acc xs = acc @ concat (map f xs)"
  by (induction xs arbitrary: acc) simp_all

lemma digit_char_hex: "d < 16 \<Longrightarrow> digit_char d = hex_digit (int d)"
proof -
  assume d: "d < 16"
  have "(''0123456789abcdef'' @ ''ghijklmnopqrstuvwxyz'') ! d = ''0123456789abcdef'' ! d"
    using d by (subst nth_append) simp
  then show ?thesis by (simp add: digit_char_def hex_digit_def)
qed

text \<open>\<open>toString(16)\<close> writes a value below 256 with one digit or with two.\<close>

lemma digits_radix_16_byte:
  assumes "n < 256"
  shows "digits_radix 16 n = hex_unpadded (int n)"
proof (cases "n < 16")
  case True
  then show ?thesis
    by (subst digits_radix.simps) (simp add: hex_unpadded_def digit_char_hex)
next
  case False
  have hi: "n div 16 < 16" using assms by simp
  have lo: "n mod 16 < 16" by simp
  have "digits_radix 16 n = digits_radix 16 (n div 16) @ [digit_char (n mod 16)]"
    using False by (subst digits_radix.simps) simp
  also have "digits_radix 16 (n div 16) = [digit_char (n div 16)]"
    using hi by (subst digits_radix.simps) simp
  finally show ?thesis
    using False by (simp add: hex_unpadded_def digit_char_hex [OF hi] digit_char_hex [OF lo]
        zdiv_int zmod_int)
qed

lemma byte_rendering:
  assumes "- 128 \<le> b" and "b \<le> 127"
  shows "(if b < 0 then toString_radix (b + 256) 16 else toString_radix b 16)
           = hex_unpadded (unsigned_value b)"
proof -
  have u: "0 \<le> unsigned_value b" "unsigned_value b < 256"
    using assms by (auto simp: unsigned_value_def)
  have "(if b < 0 then toString_radix (b + 256) 16 else toString_radix b 16)
          = toString_radix (unsigned_value b) 16"
    by (simp add: unsigned_value_def)
  also have "\<dots> = digits_radix 16 (nat (unsigned_value b))"
    using u by (simp add: toString_radix_def)
  also have "\<dots> = hex_unpadded (int (nat (unsigned_value b)))"
    using u by (intro digits_radix_16_byte) simp
  finally show ?thesis using u by simp
qed

lemma hex_digit_lowercase:
  "0 \<le> d \<Longrightarrow> d < 16 \<Longrightarrow> hex_digit d \<in> set ''0123456789abcdef''"
  unfolding hex_digit_def by (rule nth_mem) simp

lemma hex_unpadded_chars:
  assumes "0 \<le> u" and "u < 256"
  shows "set (hex_unpadded u) \<subseteq> set ''0123456789abcdef''"
proof (cases "u < 16")
  case True
  have "hex_digit u \<in> set ''0123456789abcdef''"
    using assms True by (intro hex_digit_lowercase) simp_all
  then have "set [hex_digit u] \<subseteq> set ''0123456789abcdef''"
    by (simp only: list.set insert_subset empty_subsetI simp_thms)
  then show ?thesis by (simp only: hex_unpadded_def True if_True)
next
  case False
  have "hex_digit (u div 16) \<in> set ''0123456789abcdef''"
    using assms by (intro hex_digit_lowercase) simp_all
  moreover have "hex_digit (u mod 16) \<in> set ''0123456789abcdef''"
    by (intro hex_digit_lowercase) simp_all
  ultimately have "set [hex_digit (u div 16), hex_digit (u mod 16)] \<subseteq> set ''0123456789abcdef''"
    by (simp only: list.set insert_subset empty_subsetI simp_thms)
  then show ?thesis by (simp only: hex_unpadded_def False if_False)
qed

text \<open>
  C1. When the digest primitive returns 16 signed bytes, each in \<open>[-128, 127]\<close>,
  \<open>createMD5HashKey\<close> returns the concatenation, in the order of the bytes, of their
  renderings: 256 is added to a negative byte, which gives a value in \<open>[0, 255]\<close>,
  and the value is written in lowercase hexadecimal without padding to two digits.
  Nothing stands between the renderings, and every character of the result is one of
  \<open>0123456789abcdef\<close>.
\<close>

theorem createMD5HashKey_encoding:
  assumes "length (computeDigest text) = 16"
    and "\<forall>b \<in> set (computeDigest text). - 128 \<le> b \<and> b \<le> 127"
  shows "createMD5HashKey computeDigest text = hash_key_spec (computeDigest text) \<and>
         list_all (\<lambda>b. 0 \<le> unsigned_value b \<and> unsigned_value b \<le> 255) (computeDigest text) \<and>
         set (createMD5HashKey computeDigest text) \<subseteq> set ''0123456789abcdef''"
proof -
  let ?bytes = "computeDigest text"
  let ?render = "\<lambda>byte. if byte < 0 then toString_radix (byte + 256) 16 else toString_radix byte 16"
  have "createMD5HashKey computeDigest text = concat (map ?render ?bytes)"
    unfolding createMD5HashKey_def Let_def by (simp only: foldl_append_concat append_Nil)
  also have "map ?render ?bytes = map (\<lambda>b. hex_unpadded (unsigned_value b)) ?bytes"
    using assms(2) by (intro map_cong refl byte_rendering) auto
  finally have key: "createMD5HashKey computeDigest text = hash_key_spec ?bytes"
    by (simp add: hash_key_spec_def)
  have range: "list_all (\<lambda>b. 0 \<le> unsigned_value b \<and> unsigned_value b \<le> 255) ?bytes"
    using assms(2) by (auto simp: list_all_iff unsigned_value_def)
  have "set (hex_unpadded (unsigned_value b)) \<subseteq> set ''0123456789abcdef''" if "b \<in> set ?bytes" for b
    using that assms(2) by (intro hex_unpadded_chars) (auto simp: unsigned_value_def)
  then have "set (hash_key_spec ?bytes) \<subseteq> set ''0123456789abcdef''"
    unfolding hash_key_spec_def by (auto simp del: set_simps)
  with key range show ?thesis by simp
qed

theorem createMD5HashKey_encoding_witness:
  "length md5_empty_text = 16 \<and>
   list_all (\<lambda>b. - 128 \<le> b \<and> b \<le> 127) md5_empty_text \<and>
   createMD5HashKey (\<lambda>text. md5_empty_text) '''' = hash_key_spec md5_empty_text \<and>
   hash_key_spec md5_empty_text = ''d41d8cd98f0b24e980998ecf8427e''"
proof -
  have len: "length ((\<lambda>text. md5_empty_text) '''') = 16"
    by (simp add: md5_empty_text_def)
  have range: "\<forall>b \<in> set ((\<lambda>text. md5_empty_text) ''''). - 128 \<le> b \<and> b \<le> 127"
    by (simp add: md5_empty_text_def)
  have key: "createMD5HashKey (\<lambda>text. md5_empty_text) '''' = hash_key_spec md5_empty_text"
    using createMD5HashKey_encoding [OF len range] by simp
  have "hash_key_spec md5_empty_text = ''d41d8cd98f0b24e980998ecf8427e''"
    by code_simp
  with len range key show ?thesis by (simp add: list_all_iff)
qed

text \<open>
  C2. The hash key does not always have an even number of characters. The digest of
  the empty text has the bytes \<open>00\<close>, \<open>04\<close> and \<open>09\<close>, each of which is written
  with one digit, so the key of the empty text has 29 characters where the MD5
  hash in hexadecimal has 32.
\<close>

theorem createMD5HashKey_empty_text_odd:
  "createMD5HashKey (\<lambda>text. md5_empty_text) '''' = ''d41d8cd98f0b24e980998ecf8427e'' \<and>
   length (createMD5HashKey (\<lambda>text. md5_empty_text) '''') = 29 \<and>
   odd (length (createMD5HashKey (\<lambda>text. md5_empty_text) ''''))"
proof -
  have "createMD5HashKey (\<lambda>text. md5_empty_text) '''' = ''d41d8cd98f0b24e980998ecf8427e''"
    by code_simp
  then show ?thesis by simp
qed

end
